theory Spec2Isabelle
  imports Complex_Main
begin

section \<open>The Bitwalk fluctuation index\<close>

text \<open>
  The repository holds two versions of one Streamlit script,
  \<^verbatim>\<open>bitwalk_pressure_ui_chat_20250622_v03.py\<close> and
  \<^verbatim>\<open>bitwalk_pressure_ui_chat_20250623_v04.py\<close>. Its only algorithm is
  \<^verbatim>\<open>compute_bitwalk_index\<close>, three lines of pandas, and the \<^verbatim>\<open>if/elif/else\<close>
  chain of the main script that turns the index into one of three messages.

  Numbers. A pandas column of pressures is a sequence of float64 values. A finite value
  is modelled as the rational number it denotes, and every arithmetic operation rounds
  its exact result to the nearest double, a tie going to the even significand. NaN is a
  value of its own (a JSON \<^verbatim>\<open>null\<close> of the weather service becomes NaN in the
  column, and pandas itself puts NaN in the first row of \<^verbatim>\<open>diff()\<close>). The exponent
  range is not bounded: overflow to an infinity and the subnormal numbers, both far from
  any pressure in hPa, are not modelled, nor is the sign of zero.
\<close>

subsection \<open>Rounding\<close>

text \<open>\<open>rint\<close> rounds to the nearest integer, a tie going to the even one.\<close>

definition rint :: "rat \<Rightarrow> int" where
  "rint x =
     (let f = \<lfloor>x\<rfloor>; r = x - of_int f
      in if r < 1 / 2 then f
         else if 1 / 2 < r then f + 1
         else if even f then f else f + 1)"

text \<open>
  Rounding a positive number to 53 significant bits: scale it by two into
  \<open>[2\<^sup>5\<^sup>2, 2\<^sup>5\<^sup>3)\<close>, where the doubles are the integers, round there, and scale back.
\<close>

function rnd_pos :: "rat \<Rightarrow> rat" where
  "rnd_pos x =
     (if x \<le> 0 then 0
      else if 2 ^ 53 \<le> x then 2 * rnd_pos (x / 2)
      else if x < 2 ^ 52 then rnd_pos (2 * x) / 2
      else of_int (rint x))"
  by pat_completeness auto
termination
proof (relation "measure (\<lambda>x. nat \<bar>\<lfloor>log 2 (real_of_rat x)\<rfloor> - 52\<bar>)")
  show "wf (measure (\<lambda>x. nat \<bar>\<lfloor>log 2 (real_of_rat x)\<rfloor> - 52\<bar>))" by simp
next
  fix x :: rat
  assume a: "\<not> x \<le> 0" "2 ^ 53 \<le> x"
  then have x: "2 ^ 53 \<le> real_of_rat x"
    by (metis of_rat_less_eq of_rat_numeral_eq of_rat_power)
  from a have p: "0 < real_of_rat x" by simp
  have "log 2 (2 ^ 53 :: real) = 53" by (subst log_nat_power) simp_all
  moreover from x p have "log 2 (2 ^ 53) \<le> log 2 (real_of_rat x)"
    by (subst log_le_cancel_iff) auto
  ultimately have "53 \<le> log 2 (real_of_rat x)" by linarith
  then have f: "53 \<le> \<lfloor>log 2 (real_of_rat x)\<rfloor>" by (simp add: le_floor_iff)
  have "log 2 (real_of_rat (x / 2)) = log 2 (real_of_rat x) - 1"
    using p by (simp add: of_rat_divide log_divide)
  then have "\<lfloor>log 2 (real_of_rat (x / 2))\<rfloor> = \<lfloor>log 2 (real_of_rat x)\<rfloor> - 1" by simp
  with f show "(x / 2, x) \<in> measure (\<lambda>x. nat \<bar>\<lfloor>log 2 (real_of_rat x)\<rfloor> - 52\<bar>)"
    by simp
next
  fix x :: rat
  assume a: "\<not> x \<le> 0" "\<not> 2 ^ 53 \<le> x" "x < 2 ^ 52"
  then have p: "0 < real_of_rat x" by simp
  from a have x: "real_of_rat x < 2 ^ 52"
    by (metis of_rat_less of_rat_numeral_eq of_rat_power)
  have "log 2 (2 ^ 52 :: real) = 52" by (subst log_nat_power) simp_all
  moreover from x p have "log 2 (real_of_rat x) < log 2 (2 ^ 52)"
    by (subst log_less_cancel_iff) auto
  ultimately have "log 2 (real_of_rat x) < 52" by linarith
  then have f: "\<lfloor>log 2 (real_of_rat x)\<rfloor> < 52" by (simp add: floor_less_iff)
  have "log 2 (real_of_rat (2 * x)) = log 2 (real_of_rat x) + 1"
    using p by (simp add: of_rat_mult log_mult)
  then have "\<lfloor>log 2 (real_of_rat (2 * x))\<rfloor> = \<lfloor>log 2 (real_of_rat x)\<rfloor> + 1" by simp
  with f show "(2 * x, x) \<in> measure (\<lambda>x. nat \<bar>\<lfloor>log 2 (real_of_rat x)\<rfloor> - 52\<bar>)"
    by simp
qed

declare rnd_pos.simps [simp del]

text \<open>\<open>rnd64 x\<close> is the double nearest to \<open>x\<close>.\<close>

definition rnd64 :: "rat \<Rightarrow> rat" where
  "rnd64 x = (if x < 0 then - rnd_pos (- x) else rnd_pos x)"

subsection \<open>Floating-point values\<close>

datatype pyfloat = NaN | Fin rat

text \<open>
  \<^verbatim>\<open>r.json()\<close> turns a decimal number of the response into the nearest double and
  \<^verbatim>\<open>null\<close> into \<^verbatim>\<open>None\<close>, which the float64 column holds as NaN.
\<close>

fun json_float :: "rat option \<Rightarrow> pyfloat" where
  "json_float None = NaN"
| "json_float (Some q) = Fin (rnd64 q)"

fun fsub :: "pyfloat \<Rightarrow> pyfloat \<Rightarrow> pyfloat" where
  "fsub (Fin a) (Fin b) = Fin (rnd64 (a - b))"
| "fsub _ _ = NaN"

fun fadd :: "pyfloat \<Rightarrow> pyfloat \<Rightarrow> pyfloat" where
  "fadd (Fin a) (Fin b) = Fin (rnd64 (a + b))"
| "fadd _ _ = NaN"

fun fmul :: "pyfloat \<Rightarrow> pyfloat \<Rightarrow> pyfloat" where
  "fmul (Fin a) (Fin b) = Fin (rnd64 (a * b))"
| "fmul _ _ = NaN"

text \<open>
  Division by zero gives NaN for \<open>0 / 0\<close> and an infinity otherwise in numpy; the
  infinities are outside this model, and the source divides by the literals \<open>2\<close> and
  \<open>100\<close> and by a positive count only.
\<close>

fun fdiv :: "pyfloat \<Rightarrow> pyfloat \<Rightarrow> pyfloat" where
  "fdiv (Fin a) (Fin b) = (if b = 0 then NaN else Fin (rnd64 (a / b)))"
| "fdiv _ _ = NaN"

fun fabs :: "pyfloat \<Rightarrow> pyfloat" where
  "fabs (Fin a) = Fin \<bar>a\<bar>"
| "fabs NaN = NaN"

text \<open>Every comparison with NaN is false.\<close>

fun flt :: "pyfloat \<Rightarrow> pyfloat \<Rightarrow> bool" where
  "flt (Fin a) (Fin b) = (a < b)"
| "flt _ _ = False"

fun fle :: "pyfloat \<Rightarrow> pyfloat \<Rightarrow> bool" where
  "fle (Fin a) (Fin b) = (a \<le> b)"
| "fle _ _ = False"



text \<open>
  \<^verbatim>\<open>round(x, 2)\<close> on a numpy float64 is numpy's rounding: multiply by \<open>10\<^sup>2\<close>, round to
  the nearest integer with \<^verbatim>\<open>rint\<close>, divide by \<open>10\<^sup>2\<close>, each step on doubles. NaN
  stays NaN.
\<close>

fun frint :: "pyfloat \<Rightarrow> pyfloat" where
  "frint (Fin a) = Fin (of_int (rint a))"
| "frint NaN = NaN"

definition round_py :: "pyfloat \<Rightarrow> nat \<Rightarrow> pyfloat" where
  "round_py x ndigits = fdiv (frint (fmul x (Fin (10 ^ ndigits)))) (Fin (10 ^ ndigits))"

subsection \<open>Summation\<close>

text \<open>
  numpy adds the elements of a float64 array pairwise: fewer than 8 elements one after
  the other; up to 128 elements in 8 running sums over the blocks of 8, combined as a
  tree, the elements left over added one after the other; a longer array as the sum of
  its two parts, the first a multiple of 8 long.
\<close>

fun sum_from :: "rat \<Rightarrow> rat list \<Rightarrow> rat" where
  "sum_from r [] = r"
| "sum_from r (a # as) = sum_from (rnd64 (r + a)) as"

definition add8 :: "rat list \<Rightarrow> rat list \<Rightarrow> rat list" where
  "add8 r a = map2 (\<lambda>x y. rnd64 (x + y)) r a"

function acc8 :: "rat list \<Rightarrow> rat list \<Rightarrow> rat list \<times> rat list" where
  "acc8 r a = (if 8 \<le> length a then acc8 (add8 r (take 8 a)) (drop 8 a) else (r, a))"
  by pat_completeness auto
termination
  by (relation "measure (\<lambda>(r, a). length a)") auto

declare acc8.simps [simp del]

definition tree8 :: "rat list \<Rightarrow> rat" where
  "tree8 r =
     rnd64 (rnd64 (rnd64 (r ! 0 + r ! 1) + rnd64 (r ! 2 + r ! 3)) +
            rnd64 (rnd64 (r ! 4 + r ! 5) + rnd64 (r ! 6 + r ! 7)))"

function pairwise_sum :: "rat list \<Rightarrow> rat" where
  "pairwise_sum a =
     (if length a < 8 then sum_from 0 a
      else if length a \<le> 128 then
        sum_from (tree8 (fst (acc8 (take 8 a) (drop 8 a))))
                 (snd (acc8 (take 8 a) (drop 8 a)))
      else rnd64 (pairwise_sum (take (length a div 2 - length a div 2 mod 8) a) +
                  pairwise_sum (drop (length a div 2 - length a div 2 mod 8) a)))"
  by pat_completeness auto
termination
  by (relation "measure length") auto

declare pairwise_sum.simps [simp del]

subsection \<open>pandas Series operations\<close>

text \<open>
  \<^verbatim>\<open>Series.shift(1)\<close> moves every value one row down and puts NaN in the first row;
  \<^verbatim>\<open>Series.diff()\<close> subtracts the shifted column from the column, row by row.
\<close>

definition shift_series :: "pyfloat list \<Rightarrow> pyfloat list" where
  "shift_series xs = take (length xs) (NaN # xs)"

definition diff_series :: "pyfloat list \<Rightarrow> pyfloat list" where
  "diff_series xs = map2 fsub xs (shift_series xs)"

definition abs_series :: "pyfloat list \<Rightarrow> pyfloat list" where
  "abs_series xs = map fabs xs"

text \<open>
  \<^verbatim>\<open>Series.max()\<close> and \<^verbatim>\<open>Series.mean()\<close> skip NaN (\<^verbatim>\<open>skipna=True\<close>) and return NaN
  when no value is left. The mean is the sum of the column with 0 in the place of every
  NaN, divided by the number of values that are not NaN.
\<close>

fun dropna :: "pyfloat list \<Rightarrow> rat list" where
  "dropna [] = []"
| "dropna (NaN # xs) = dropna xs"
| "dropna (Fin a # xs) = a # dropna xs"

fun fillna0 :: "pyfloat list \<Rightarrow> rat list" where
  "fillna0 [] = []"
| "fillna0 (NaN # xs) = 0 # fillna0 xs"
| "fillna0 (Fin a # xs) = a # fillna0 xs"

definition max_series :: "pyfloat list \<Rightarrow> pyfloat" where
  "max_series xs = (case dropna xs of [] \<Rightarrow> NaN | a # as \<Rightarrow> Fin (fold max as a))"

definition mean_series :: "pyfloat list \<Rightarrow> pyfloat" where
  "mean_series xs =
     (case dropna xs of [] \<Rightarrow> NaN
      | a # as \<Rightarrow> fdiv (Fin (pairwise_sum (fillna0 xs))) (Fin (of_nat (length (a # as)))))"

subsection \<open>The data frame and the index\<close>

text \<open>
  The frame built by \<^verbatim>\<open>fetch_pressure_data\<close> has the columns \<^verbatim>\<open>time\<close> and
  \<^verbatim>\<open>pressure\<close>, of one length; \<^verbatim>\<open>compute_bitwalk_index\<close> stores the columns
  \<^verbatim>\<open>diff\<close> and \<^verbatim>\<open>dpdt\<close> in it. A column that is not there is \<open>None\<close>.
  Timestamps are seconds since the epoch.
\<close>

record dataframe =
  col_time :: "int list"
  col_pressure :: "pyfloat list"
  col_diff :: "pyfloat list option"
  col_dpdt :: "pyfloat list option"

datatype version = V03 | V04

text \<open>
  The function assigns two columns of its argument in place and returns the index; the
  model returns the frame after the two assignments together with the index. The
  \<^verbatim>\<open>diff\<close> column that \<^verbatim>\<open>max()\<close> and \<^verbatim>\<open>mean()\<close> read is the one assigned
  two lines before, so the read never meets a missing column. One equation per source
  file.
\<close>

fun compute_bitwalk_index :: "version \<Rightarrow> dataframe \<Rightarrow> dataframe \<times> pyfloat" where
  "compute_bitwalk_index V03 df =
     (let df1 = df\<lparr>col_diff := Some (abs_series (diff_series (col_pressure df)))\<rparr>;
          df2 = df1\<lparr>col_dpdt := Some (diff_series (col_pressure df1))\<rparr>;
          d = (case col_diff df2 of Some c \<Rightarrow> c | None \<Rightarrow> [])
      in (df2, round_py (fdiv (fadd (max_series d) (mean_series d)) (Fin 2)) 2))"
| "compute_bitwalk_index V04 df =
     (let df1 = df\<lparr>col_diff := Some (abs_series (diff_series (col_pressure df)))\<rparr>;
          df2 = df1\<lparr>col_dpdt := Some (diff_series (col_pressure df1))\<rparr>;
          d = (case col_diff df2 of Some c \<Rightarrow> c | None \<Rightarrow> [])
      in (df2, round_py (fdiv (fadd (max_series d) (mean_series d)) (Fin 2)) 2))"

subsection \<open>The tier and the whole computation\<close>

text \<open>
  The main script shows one of three messages: \<^verbatim>\<open>st.success\<close> (stable),
  \<^verbatim>\<open>st.info\<close> (moderate) or \<^verbatim>\<open>st.warning\<close> (high).
\<close>

datatype tier = STABLE | MODERATE | HIGH

fun classify_tier :: "version \<Rightarrow> pyfloat \<Rightarrow> tier" where
  "classify_tier V03 ix =
     (if flt ix (Fin (1 / 2)) then STABLE
      else if flt ix (Fin (3 / 2)) then MODERATE
      else HIGH)"
| "classify_tier V04 ix =
     (if flt ix (Fin (1 / 2)) then STABLE
      else if flt ix (Fin (3 / 2)) then MODERATE
      else HIGH)"

text \<open>
  The two error kinds of the specification. The source defines no exception class and has
  no \<^verbatim>\<open>raise\<close> statement: neither is ever produced.
\<close>

datatype error = InsufficientDataError | UnorderedSeriesError

record fluctuation_result =
  result_index :: pyfloat
  result_tier :: tier

text \<open>
  The specification's operation \<open>compute\<close> as the main script performs it: the call
  \<^verbatim>\<open>index = compute_bitwalk_index(df)\<close> followed by the tier chain on \<^verbatim>\<open>index\<close>.
\<close>

definition compute :: "version \<Rightarrow> dataframe \<Rightarrow> error + fluctuation_result" where
  "compute v df =
     (let ix = snd (compute_bitwalk_index v df)
      in Inr \<lparr>result_index = ix, result_tier = classify_tier v ix\<rparr>)"

subsection \<open>The index in the words of the specification\<close>

text \<open>
  The specification's algorithm on a series of finite pressures \<open>p\<close> of length \<open>n\<close>,
  computed on doubles: the differences \<open>d[i] = |p[i] - p[i-1]|\<close> for \<open>i = 1..n-1\<close>, their
  maximum and their mean, and the mean of these two rounded to two decimal places. The
  mean is the sum of the difference column, whose first row counts as 0, divided by the
  number of differences. Rounding to an integer is written with the library's
  \<open>round\<close>, which rounds a tie upwards: a tie is rounded to twice the rounded half.
\<close>

definition round_half_even :: "rat \<Rightarrow> int" where
  "round_half_even x = (if frac x = 1 / 2 then 2 * round (x / 2) else round x)"

definition spec_d :: "rat list \<Rightarrow> rat list" where
  "spec_d p = map (\<lambda>i. \<bar>rnd64 (p ! i - p ! (i - 1))\<bar>) [1..<length p]"

definition spec_index :: "rat list \<Rightarrow> rat" where
  "spec_index p =
     (let d = spec_d p;
          maxDiff = Max (set d);
          meanDiff = rnd64 (pairwise_sum (0 # d) / of_nat (length d));
          half = rnd64 (rnd64 (maxDiff + meanDiff) / 2)
      in rnd64 (of_int (round_half_even (rnd64 (half * 10 ^ 2))) / 10 ^ 2))"

section \<open>Properties\<close>

subsection \<open>Rounding\<close>

lemma floor_rat_numeral:
  "\<lfloor>numeral a / numeral b :: rat\<rfloor> = numeral a div numeral b"
  by (metis floor_divide_of_int_eq of_int_numeral)

lemma rint_nonneg: "0 \<le> x \<Longrightarrow> 0 \<le> rint x"
  by (auto simp: rint_def Let_def)


lemma rint_eq_round_half_even: "rint x = round_half_even x"
proof -
  define f where "f = \<lfloor>x\<rfloor>"
  define r where "r = x - of_int f"
  have r: "0 \<le> r" "r < 1" unfolding r_def f_def by linarith+
  have x: "x = of_int f + r" by (simp add: r_def)
  have lhs: "rint x =
      (if r < 1 / 2 then f else if 1 / 2 < r then f + 1 else if even f then f else f + 1)"
    by (simp add: rint_def Let_def f_def r_def)
  have rhs: "round_half_even x = (if r = 1 / 2 then 2 * round (x / 2) else round x)"
    by (simp add: round_half_even_def frac_def r_def f_def)
  consider "r < 1 / 2" | "1 / 2 < r" | "r = 1 / 2" by linarith
  then show ?thesis
  proof cases
    case 1
    then have "round x = f" unfolding round_def x using r by (intro floor_unique) auto
    with 1 show ?thesis by (simp add: lhs rhs)
  next
    case 2
    then have "round x = f + 1" unfolding round_def x using r by (intro floor_unique) auto
    with 2 show ?thesis by (simp add: lhs rhs)
  next
    case 3
    show ?thesis
    proof (cases "even f")
      case True
      then obtain m where m: "f = 2 * m" by (elim evenE)
      have "round (x / 2) = m" unfolding round_def x 3 m
        by (intro floor_unique) (simp_all add: add_divide_distrib)
      with 3 True m show ?thesis by (simp add: lhs rhs)
    next
      case False
      then obtain m where m: "f = 2 * m + 1" by (elim oddE)
      have "round (x / 2) = m + 1" unfolding round_def x 3 m
        by (intro floor_unique) (simp_all add: add_divide_distrib)
      with 3 False m show ?thesis by (simp add: lhs rhs)
    qed
  qed
qed

lemma rnd_pos_nonneg: "0 \<le> rnd_pos x"
proof (induction x rule: rnd_pos.induct)
  case (1 x)
  show ?case
  proof (cases "x \<le> 0")
    case True
    then show ?thesis by (subst rnd_pos.simps) simp
  next
    case False
    with 1 show ?thesis by (subst rnd_pos.simps) (auto simp: rint_nonneg)
  qed
qed

lemma rnd_pos_double: "rnd_pos (2 * x) = 2 * rnd_pos x"
proof (cases "x \<le> 0")
  case True
  then show ?thesis by (simp add: rnd_pos.simps)
next
  case False
  show ?thesis
  proof (cases "2 ^ 52 \<le> x")
    case True
    with False show ?thesis by (subst rnd_pos.simps) simp
  next
    case False
    with \<open>\<not> x \<le> 0\<close> show ?thesis by (subst (2) rnd_pos.simps) simp
  qed
qed


lemma rnd64_0: "rnd64 0 = 0"
  by (simp add: rnd64_def rnd_pos.simps)

lemma rnd64_nonneg: "0 \<le> x \<Longrightarrow> 0 \<le> rnd64 x"
  by (simp add: rnd64_def rnd_pos_nonneg)

lemma rnd64_double: "rnd64 (2 * x) = 2 * rnd64 x"
  using rnd_pos_double [of "- x"] rnd_pos_double [of x] by (simp add: rnd64_def)

lemma rnd64_half: "rnd64 (x / 2) = rnd64 x / 2"
  using rnd64_double [of "x / 2"] by simp

subsection \<open>Summation keeps what rounded addition keeps\<close>

lemma sum_from_pred:
  assumes step: "\<And>x y. P x \<Longrightarrow> P y \<Longrightarrow> P (rnd64 (x + y))"
  shows "P r \<Longrightarrow> \<forall>x \<in> set a. P x \<Longrightarrow> P (sum_from r a)"
  by (induction a arbitrary: r) (simp_all add: step)

lemma add8_pred:
  assumes step: "\<And>x y. P x \<Longrightarrow> P y \<Longrightarrow> P (rnd64 (x + y))"
    and "\<forall>x \<in> set r. P x" and "\<forall>x \<in> set a. P x"
  shows "\<forall>x \<in> set (add8 r a). P x"
  using assms(2,3) by (auto simp: add8_def intro!: step dest: set_zip_leftD set_zip_rightD)

lemma length_add8: "length (add8 r a) = min (length r) (length a)"
  by (simp add: add8_def)

lemma acc8_pred:
  assumes step: "\<And>x y. P x \<Longrightarrow> P y \<Longrightarrow> P (rnd64 (x + y))"
  shows "\<forall>x \<in> set r. P x \<Longrightarrow> \<forall>x \<in> set a. P x \<Longrightarrow>
         (\<forall>x \<in> set (fst (acc8 r a)). P x) \<and> (\<forall>x \<in> set (snd (acc8 r a)). P x)"
proof (induction r a rule: acc8.induct)
  case (1 r a)
  show ?case
  proof (cases "8 \<le> length a")
    case True
    have "\<forall>x \<in> set (take 8 a). P x" using 1(3) by (auto dest: in_set_takeD)
    then have r': "\<forall>x \<in> set (add8 r (take 8 a)). P x"
      using 1(2) by (intro add8_pred [where P = P]) (auto simp: step)
    have a': "\<forall>x \<in> set (drop 8 a). P x" using 1(3) by (auto dest: in_set_dropD)
    from 1(1) [OF True r' a'] True show ?thesis by (subst (1 2) acc8.simps) simp
  next
    case False
    with 1(2,3) show ?thesis by (subst (1 2) acc8.simps) simp
  qed
qed

lemma length_acc8: "length r = 8 \<Longrightarrow> length (fst (acc8 r a)) = 8"
proof (induction r a rule: acc8.induct)
  case (1 r a)
  show ?case
  proof (cases "8 \<le> length a")
    case True
    with 1(2) have "length (add8 r (take 8 a)) = 8" by (simp add: length_add8)
    from 1(1) [OF True this] True show ?thesis by (subst acc8.simps) simp
  next
    case False
    with 1(2) show ?thesis by (subst acc8.simps) simp
  qed
qed

lemma tree8_pred:
  assumes step: "\<And>x y. P x \<Longrightarrow> P y \<Longrightarrow> P (rnd64 (x + y))"
    and "length r = 8" and "\<forall>x \<in> set r. P x"
  shows "P (tree8 r)"
proof -
  have "P (r ! i)" if "i < 8" for i using that assms(2,3) by simp
  then show ?thesis unfolding tree8_def by (intro step) simp_all
qed

lemma pairwise_sum_pred:
  assumes step: "\<And>x y. P x \<Longrightarrow> P y \<Longrightarrow> P (rnd64 (x + y))" and zero: "P 0"
  shows "\<forall>x \<in> set a. P x \<Longrightarrow> P (pairwise_sum a)"
proof (induction a rule: pairwise_sum.induct)
  case (1 a)
  consider "length a < 8" | "\<not> length a < 8" "length a \<le> 128"
    | "\<not> length a < 8" "\<not> length a \<le> 128" by blast
  then show ?case
  proof cases
    case 1
    then show ?thesis
      using "1.prems" by (subst pairwise_sum.simps) (simp add: sum_from_pred [where P = P] step zero)
  next
    case 2
    have t: "\<forall>x \<in> set (take 8 a). P x" using "1.prems" by (auto dest: in_set_takeD)
    have d: "\<forall>x \<in> set (drop 8 a). P x" using "1.prems" by (auto dest: in_set_dropD)
    from 2 have l: "length (take 8 a) = 8" by simp
    note acc = acc8_pred [where P = P, OF step t d]
    have "P (tree8 (fst (acc8 (take 8 a) (drop 8 a))))"
      using acc by (intro tree8_pred [where P = P] length_acc8 l) (auto simp: step)
    then have "P (sum_from (tree8 (fst (acc8 (take 8 a) (drop 8 a))))
                 (snd (acc8 (take 8 a) (drop 8 a))))"
      using acc by (intro sum_from_pred [where P = P]) (auto simp: step)
    with 2 show ?thesis by (subst pairwise_sum.simps) simp
  next
    case 3
    let ?n = "length a div 2 - length a div 2 mod 8"
    have "\<forall>x \<in> set (take ?n a). P x" using "1.prems" by (auto dest: in_set_takeD)
    then have l: "P (pairwise_sum (take ?n a))" using 3 by (intro "1.IH"(1)) auto
    have "\<forall>x \<in> set (drop ?n a). P x" using "1.prems" by (auto dest: in_set_dropD)
    then have r: "P (pairwise_sum (drop ?n a))" using 3 by (intro "1.IH"(2)) auto
    from 3 l r show ?thesis by (subst pairwise_sum.simps) (simp add: step)
  qed
qed

lemma pairwise_sum_nonneg: "\<forall>x \<in> set a. 0 \<le> x \<Longrightarrow> 0 \<le> pairwise_sum a"
  by (rule pairwise_sum_pred [where P = "\<lambda>x. 0 \<le> x"]) (simp_all add: rnd64_nonneg)

lemma pairwise_sum_zero: "\<forall>x \<in> set a. x = 0 \<Longrightarrow> pairwise_sum a = 0"
  by (rule pairwise_sum_pred [where P = "\<lambda>x. x = 0"]) (simp_all add: rnd64_0)

subsection \<open>Both versions, unfolded\<close>

lemma cbi_fst:
  "fst (compute_bitwalk_index v df) =
     df\<lparr>col_diff := Some (abs_series (diff_series (col_pressure df))),
        col_dpdt := Some (diff_series (col_pressure df))\<rparr>"
  by (cases v) (simp_all add: Let_def)

lemma cbi_snd:
  "snd (compute_bitwalk_index v df) =
     round_py (fdiv (fadd (max_series (abs_series (diff_series (col_pressure df))))
                          (mean_series (abs_series (diff_series (col_pressure df))))) (Fin 2)) 2"
  by (cases v) (simp_all add: Let_def)

lemma classify_tier_eq:
  "classify_tier v ix =
     (if flt ix (Fin (1 / 2)) then STABLE else if flt ix (Fin (3 / 2)) then MODERATE else HIGH)"
  by (cases v) simp_all

subsection \<open>The difference column of a finite series\<close>

lemma dropna_map_Fin: "dropna (map Fin xs) = xs"
  by (induction xs) simp_all

lemma fillna0_map_Fin: "fillna0 (map Fin xs) = xs"
  by (induction xs) simp_all

lemma zip_sub_Fin:
  "map2 fsub (map Fin q) (take (length q) (map Fin (a # q))) =
   map Fin (map2 (\<lambda>x y. rnd64 (x - y)) q (a # q))"
  by (induction q arbitrary: a) simp_all

lemma diff_series_Fin:
  "diff_series (map Fin (a # q)) = NaN # map Fin (map2 (\<lambda>x y. rnd64 (x - y)) q (a # q))"
  using zip_sub_Fin [of q a] by (simp add: diff_series_def shift_series_def)

lemma spec_d_Cons: "spec_d (a # q) = map abs (map2 (\<lambda>x y. rnd64 (x - y)) q (a # q))"
proof (rule nth_equalityI)
  show "length (spec_d (a # q)) = length (map abs (map2 (\<lambda>x y. rnd64 (x - y)) q (a # q)))"
    by (simp add: spec_d_def del: upt_Suc)
next
  fix i assume "i < length (spec_d (a # q))"
  then have i: "i < length q" by (simp add: spec_d_def del: upt_Suc)
  then have "[1..<Suc (length q)] ! i = Suc i" by (simp del: upt_Suc)
  with i show "spec_d (a # q) ! i = map abs (map2 (\<lambda>x y. rnd64 (x - y)) q (a # q)) ! i"
    by (simp add: spec_d_def del: upt_Suc)
qed

lemma abs_diff_column:
  "abs_series (diff_series (map Fin (a # q))) = NaN # map Fin (spec_d (a # q))"
  unfolding diff_series_Fin spec_d_Cons by (simp add: abs_series_def)

lemma length_spec_d: "length (spec_d p) = length p - 1"
  by (simp add: spec_d_def)

lemma spec_d_nonneg: "\<forall>x \<in> set (spec_d p). 0 \<le> x"
  by (auto simp: spec_d_def)

lemma index_eq_spec:
  assumes "2 \<le> length p" and "col_pressure df = map Fin p"
  shows "snd (compute_bitwalk_index v df) = Fin (spec_index p)"
proof -
  from assms(1) obtain a q where p: "p = a # q" by (cases p) auto
  from assms(1) have "length (spec_d p) \<noteq> 0" by (simp add: length_spec_d)
  then obtain b bs where d: "spec_d p = b # bs" by (cases "spec_d p") auto
  have m: "fold max bs b = Max (set (b # bs))" by (simp only: Max.set_eq_fold)
  have col: "abs_series (diff_series (col_pressure df)) = NaN # map Fin (spec_d p)"
    unfolding assms(2) p by (rule abs_diff_column)
  have mx: "max_series (NaN # map Fin (spec_d p)) = Fin (Max (set (spec_d p)))"
    by (simp add: max_series_def dropna_map_Fin d m del: set_simps)
  have mn: "mean_series (NaN # map Fin (spec_d p)) =
      Fin (rnd64 (pairwise_sum (0 # spec_d p) / of_nat (length (spec_d p))))"
    by (simp add: mean_series_def dropna_map_Fin fillna0_map_Fin d)
  show ?thesis
    unfolding cbi_snd col mx mn
    by (simp add: spec_index_def round_py_def Let_def rint_eq_round_half_even)
qed

lemma short_diff_dropna:
  "length xs < 2 \<Longrightarrow> dropna (abs_series (diff_series xs)) = []"
proof (cases xs)
  case Nil
  then show ?thesis by (simp add: diff_series_def shift_series_def abs_series_def)
next
  case (Cons a q)
  assume "length xs < 2"
  with Cons have "q = []" by simp
  with Cons show ?thesis by (simp add: diff_series_def shift_series_def abs_series_def)
qed

subsection \<open>Sign of the index, constant series\<close>

lemma spec_index_nonneg:
  assumes "2 \<le> length p" shows "0 \<le> spec_index p"
proof -
  from assms have ne: "spec_d p \<noteq> []" using length_spec_d [of p] by auto
  note nn = spec_d_nonneg [of p]
  from ne obtain a where "a \<in> set (spec_d p)" by (cases "spec_d p") auto
  with nn have "0 \<le> a" "a \<le> Max (set (spec_d p))" by auto
  then have mx: "0 \<le> Max (set (spec_d p))" by linarith
  have sm: "0 \<le> pairwise_sum (0 # spec_d p)" using nn by (intro pairwise_sum_nonneg) simp
  have mn: "0 \<le> rnd64 (pairwise_sum (0 # spec_d p) / of_nat (length (spec_d p)))"
    using sm by (intro rnd64_nonneg) simp
  have "0 \<le> rnd64 (rnd64 (Max (set (spec_d p)) +
      rnd64 (pairwise_sum (0 # spec_d p) / of_nat (length (spec_d p)))) / 2)"
    using mx mn sm by (intro rnd64_nonneg divide_nonneg_nonneg add_nonneg_nonneg) simp_all
  then show ?thesis
    unfolding spec_index_def Let_def
    by (intro rnd64_nonneg divide_nonneg_nonneg)
       (simp_all add: rint_nonneg rnd64_nonneg flip: rint_eq_round_half_even)
qed

lemma spec_d_replicate: "spec_d (replicate n c) = replicate (n - 1) 0"
  by (rule nth_equalityI) (simp_all add: spec_d_def rnd64_0)

lemma spec_index_replicate:
  assumes "2 \<le> n" shows "spec_index (replicate n c) = 0"
proof -
  from assms have "n - 1 \<noteq> 0" by simp
  then have s: "set (replicate (n - 1) (0 :: rat)) = {0}" by simp
  have z: "pairwise_sum (0 # replicate (n - 1) 0) = 0" by (rule pairwise_sum_zero) simp
  have r: "round_half_even 0 = 0" by (simp add: rint_def flip: rint_eq_round_half_even)
  show ?thesis
    unfolding spec_index_def Let_def spec_d_replicate s z by (simp add: rnd64_0 r)
qed

subsection \<open>Doubles stay doubles, powers of two pass through rounding\<close>








subsection \<open>Summation commutes with a map that commutes with rounded addition\<close>






subsection \<open>Scaling a difference column by a power of two\<close>













subsection \<open>Evaluation\<close>

text \<open>
  The equations that evaluate the model on a given frame. \<open>rnd_pos\<close> and the summation
  functions unfold under their own conditions, so the equations are for closed terms only.
\<close>

lemmas eval = rnd64_def rnd_pos.simps rint_def floor_rat_numeral Let_def diff_series_def
  shift_series_def abs_series_def max_series_def mean_series_def round_py_def
  pairwise_sum.simps acc8.simps tree8_def add8_def

text \<open>
  Two checks of the rounding against what Python prints. \<^verbatim>\<open>round(np.float64(0.495), 2)\<close>
  is 0.5: the double 0.495 lies below the decimal, but its product with 100 rounds to
  49.5, a tie, which \<^verbatim>\<open>rint\<close> takes to 50. The series 1000.0, 1000.5, ..., 1004.5,
  1004.9 has the index 0.49: its last difference is the double 0.39999999999997726, so
  the value before rounding lies below 0.495.
\<close>

lemma round_tie_example: "round_py (json_float (Some (495 / 1000))) 2 = Fin (1 / 2)"
  by (simp add: eval)


subsection \<open>The claims\<close>



text \<open>
  C2. The tier chain of the main script (either version): an index below 0.5 is STABLE,
  an index from 0.5 up to but excluding 1.5 is MODERATE, an index of 1.5 or more is HIGH.
  For a finite index each tier is given exactly on its interval, so the three intervals
  neither overlap nor leave a gap; 0.5 itself is MODERATE and 1.5 itself is HIGH.
\<close>

theorem tier_classification:
  "(flt ix (Fin (1 / 2)) \<longrightarrow> classify_tier v ix = STABLE) \<and>
   (fle (Fin (1 / 2)) ix \<and> flt ix (Fin (3 / 2)) \<longrightarrow> classify_tier v ix = MODERATE) \<and>
   (fle (Fin (3 / 2)) ix \<longrightarrow> classify_tier v ix = HIGH) \<and>
   (classify_tier v (Fin q) = STABLE) = (q < 1 / 2) \<and>
   (classify_tier v (Fin q) = MODERATE) = (1 / 2 \<le> q \<and> q < 3 / 2) \<and>
   (classify_tier v (Fin q) = HIGH) = (3 / 2 \<le> q) \<and>
   classify_tier v (Fin (1 / 2)) = MODERATE \<and>
   classify_tier v (Fin (3 / 2)) = HIGH"
  by (cases ix) (auto simp: classify_tier_eq)

theorem tier_classification_witness:
  "flt (Fin (49 / 100)) (Fin (1 / 2)) \<and> classify_tier V03 (Fin (49 / 100)) = STABLE \<and>
   fle (Fin (1 / 2)) (Fin (9 / 10)) \<and> flt (Fin (9 / 10)) (Fin (3 / 2)) \<and>
   classify_tier V04 (Fin (9 / 10)) = MODERATE \<and>
   fle (Fin (3 / 2)) (Fin 2) \<and> classify_tier V04 (Fin 2) = HIGH"
  using tier_classification [of "Fin (49 / 100)" V03 0]
    tier_classification [of "Fin (9 / 10)" V04 0]
    tier_classification [of "Fin 2" V04 0]
  by simp

text \<open>
  C3, as stated: \<^verbatim>\<open>compute_bitwalk_index\<close> never changes its input. It does: the frame
  it was given has two more columns afterwards.
\<close>

theorem compute_mutates_frame_counterexample:
  "fst (compute_bitwalk_index V03
     \<lparr>col_time = [0, 3600], col_pressure = [Fin 1000, Fin 1001],
      col_diff = None, col_dpdt = None\<rparr>) \<noteq>
   \<lparr>col_time = [0, 3600], col_pressure = [Fin 1000, Fin 1001],
    col_diff = None, col_dpdt = None\<rparr> \<and>
   fst (compute_bitwalk_index V04
     \<lparr>col_time = [0, 3600], col_pressure = [Fin 1000, Fin 1001],
      col_diff = None, col_dpdt = None\<rparr>) =
   \<lparr>col_time = [0, 3600], col_pressure = [Fin 1000, Fin 1001],
    col_diff = Some [NaN, Fin 1], col_dpdt = Some [NaN, Fin 1]\<rparr>"
  by (simp add: eval)

text \<open>
  C3, amended. \<^verbatim>\<open>compute_bitwalk_index\<close> leaves the columns \<^verbatim>\<open>time\<close> and
  \<^verbatim>\<open>pressure\<close> of its input as they are and stores two derived columns in it:
  \<^verbatim>\<open>diff\<close>, the absolute successive differences, and \<^verbatim>\<open>dpdt\<close>, the signed ones.
  Calling it again on the frame it has changed gives the same frame and the same index.
\<close>

theorem compute_frame_effect:
  "col_time (fst (compute_bitwalk_index v df)) = col_time df \<and>
   col_pressure (fst (compute_bitwalk_index v df)) = col_pressure df \<and>
   col_diff (fst (compute_bitwalk_index v df)) =
     Some (abs_series (diff_series (col_pressure df))) \<and>
   col_dpdt (fst (compute_bitwalk_index v df)) = Some (diff_series (col_pressure df)) \<and>
   compute_bitwalk_index v (fst (compute_bitwalk_index v df)) = compute_bitwalk_index v df"
  by (cases v) (simp_all add: Let_def)

text \<open>
  C4, as stated: a series of fewer than 2 samples makes the computation fail with
  InsufficientDataError. On a single sample neither version fails.
\<close>

theorem short_series_no_error_counterexample:
  "compute V03 \<lparr>col_time = [0], col_pressure = [Fin 1000], col_diff = None, col_dpdt = None\<rparr>
     \<noteq> Inl InsufficientDataError \<and>
   compute V04 \<lparr>col_time = [0], col_pressure = [Fin 1000], col_diff = None, col_dpdt = None\<rparr>
     \<noteq> Inl InsufficientDataError"
  by (simp add: compute_def Let_def)

text \<open>
  C4, amended. For a series of fewer than 2 samples the computation raises nothing: the
  difference column holds no value, its maximum and mean are NaN, the index is NaN, and
  the tier chain, whose comparisons are both false on NaN, ends in its last branch.
\<close>

theorem short_series_nan:
  assumes "length (col_pressure df) < 2"
  shows "compute v df = Inr \<lparr>result_index = NaN, result_tier = HIGH\<rparr>"
  using short_diff_dropna [OF assms]
  by (simp add: compute_def cbi_snd max_series_def mean_series_def round_py_def
      classify_tier_eq)

theorem short_series_nan_witness:
  "length (col_pressure
     \<lparr>col_time = [0], col_pressure = [Fin 1000], col_diff = None, col_dpdt = None\<rparr>) < 2 \<and>
   compute V04 \<lparr>col_time = [0], col_pressure = [Fin 1000], col_diff = None, col_dpdt = None\<rparr>
     = Inr \<lparr>result_index = NaN, result_tier = HIGH\<rparr>"
  using short_series_nan [of
    "\<lparr>col_time = [0], col_pressure = [Fin 1000], col_diff = None, col_dpdt = None\<rparr>" V04]
  by simp

text \<open>
  C5, as stated: a series with an out-of-order pair of timestamps makes the computation
  fail with UnorderedSeriesError. On two samples in the wrong order neither version fails.
\<close>

theorem unordered_series_no_error_counterexample:
  "\<not> sorted [3600, 0 :: int] \<and>
   compute V03 \<lparr>col_time = [3600, 0], col_pressure = [Fin 1000, Fin 1001],
     col_diff = None, col_dpdt = None\<rparr> \<noteq> Inl UnorderedSeriesError \<and>
   compute V04 \<lparr>col_time = [3600, 0], col_pressure = [Fin 1000, Fin 1001],
     col_diff = None, col_dpdt = None\<rparr> =
     Inr \<lparr>result_index = Fin 1, result_tier = MODERATE\<rparr>"
  by (simp add: eval compute_def)

text \<open>
  C5, amended. The computation never reads the timestamps: replacing the \<^verbatim>\<open>time\<close>
  column by any other changes neither the index nor the result, and the computation never
  fails with UnorderedSeriesError.
\<close>

theorem timestamps_ignored:
  "compute v (df\<lparr>col_time := ts\<rparr>) = compute v df \<and>
   snd (compute_bitwalk_index v (df\<lparr>col_time := ts\<rparr>)) = snd (compute_bitwalk_index v df) \<and>
   compute v df \<noteq> Inl UnorderedSeriesError"
  by (simp add: compute_def cbi_snd Let_def)




text \<open>
  C7. For every series of length at least 2 whose pressures are all the same finite
  value, the index is 0 and the tier is STABLE.
\<close>

theorem constant_series_stable:
  assumes "2 \<le> n" and "col_pressure df = replicate n (Fin c)"
  shows "compute v df = Inr \<lparr>result_index = Fin 0, result_tier = STABLE\<rparr>"
proof -
  have "col_pressure df = map Fin (replicate n c)" using assms(2) by simp
  with assms(1) have "snd (compute_bitwalk_index v df) = Fin (spec_index (replicate n c))"
    by (intro index_eq_spec) simp_all
  with assms(1) show ?thesis
    by (simp add: compute_def spec_index_replicate classify_tier_eq)
qed

theorem constant_series_stable_witness:
  "(2 :: nat) \<le> 3 \<and>
   compute V03 \<lparr>col_time = [0, 3600, 7200],
     col_pressure = [Fin (4053 / 4), Fin (4053 / 4), Fin (4053 / 4)],
     col_diff = None, col_dpdt = None\<rparr> =
   Inr \<lparr>result_index = Fin 0, result_tier = STABLE\<rparr>"
  using constant_series_stable [of 3
     "\<lparr>col_time = [0, 3600, 7200],
     col_pressure = [Fin (4053 / 4), Fin (4053 / 4), Fin (4053 / 4)],
     col_diff = None, col_dpdt = None\<rparr>" "4053 / 4" V03]
  by (simp add: numeral_3_eq_3)

text \<open>
  C8. For every series of finite pressures of length at least 2, the index is a number
  and is not negative.
\<close>

theorem index_nonneg:
  assumes "2 \<le> length p" and "col_pressure df = map Fin p"
  shows "fle (Fin 0) (snd (compute_bitwalk_index v df))"
  using index_eq_spec [OF assms] spec_index_nonneg [OF assms(1)] by simp

theorem index_nonneg_witness:
  "2 \<le> length [1000, 9985 / 10, 1001 :: rat] \<and>
   fle (Fin 0) (snd (compute_bitwalk_index V04
     \<lparr>col_time = [0, 3600, 7200],
      col_pressure = [Fin 1000, Fin (9985 / 10), Fin 1001],
      col_diff = None, col_dpdt = None\<rparr>))"
  using index_nonneg [of "[1000, 9985 / 10, 1001]"
     "\<lparr>col_time = [0, 3600, 7200],
      col_pressure = [Fin 1000, Fin (9985 / 10), Fin 1001],
      col_diff = None, col_dpdt = None\<rparr>" V04]
  by simp

text \<open>
  C9, as stated: for the hourly series 1000.0, 1000.2, 999.8, 1001.0 the differences are
  0.2, 0.4 and 1.2. The difference column does not hold these doubles: 1000.2 and 999.8
  are not doubles, and the differences of their nearest doubles lie a little above.
\<close>

theorem spec_example_counterexample:
  "col_diff (fst (compute_bitwalk_index V03
     \<lparr>col_time = [0, 3600, 7200, 10800],
      col_pressure = map json_float [Some 1000, Some (10002 / 10), Some (9998 / 10), Some 1001],
      col_diff = None, col_dpdt = None\<rparr>)) \<noteq>
     Some [NaN, json_float (Some (2 / 10)), json_float (Some (4 / 10)),
           json_float (Some (12 / 10))] \<and>
   col_diff (fst (compute_bitwalk_index V04
     \<lparr>col_time = [0, 3600, 7200, 10800],
      col_pressure = map json_float [Some 1000, Some (10002 / 10), Some (9998 / 10), Some 1001],
      col_diff = None, col_dpdt = None\<rparr>)) \<noteq>
     Some [NaN, json_float (Some (2 / 10)), json_float (Some (4 / 10)),
           json_float (Some (12 / 10))]"
  by (simp add: eval)

text \<open>
  C9, amended. For the hourly series 1000.0, 1000.2, 999.8, 1001.0 the difference
  column holds, after its NaN, the doubles 0.20000000000004547, 0.40000000000009095 and
  1.2000000000000455, each within \<open>10\<^sup>-\<^sup>1\<^sup>2\<close> of 0.2, 0.4 and 1.2; their maximum is
  1.2000000000000455 and their mean 0.6000000000000606, within \<open>10\<^sup>-\<^sup>1\<^sup>2\<close> of 0.6; the
  index is the double 0.9 and the tier MODERATE, in either version.
\<close>

theorem spec_example:
  "col_diff (fst (compute_bitwalk_index v
     \<lparr>col_time = [0, 3600, 7200, 10800],
      col_pressure = map json_float [Some 1000, Some (10002 / 10), Some (9998 / 10), Some 1001],
      col_diff = None, col_dpdt = None\<rparr>)) =
     Some [NaN, Fin (879609302221 / 4398046511104), Fin (879609302221 / 2199023255552),
           Fin (5277655813325 / 4398046511104)] \<and>
   \<bar>879609302221 / 4398046511104 - 2 / 10\<bar> < (1 / 10 ^ 12 :: rat) \<and>
   \<bar>879609302221 / 2199023255552 - 4 / 10\<bar> < (1 / 10 ^ 12 :: rat) \<and>
   \<bar>5277655813325 / 4398046511104 - 12 / 10\<bar> < (1 / 10 ^ 12 :: rat) \<and>
   max_series [NaN, Fin (879609302221 / 4398046511104), Fin (879609302221 / 2199023255552),
               Fin (5277655813325 / 4398046511104)] = Fin (5277655813325 / 4398046511104) \<and>
   mean_series [NaN, Fin (879609302221 / 4398046511104), Fin (879609302221 / 2199023255552),
                Fin (5277655813325 / 4398046511104)] =
     Fin (5404319552845141 / 9007199254740992) \<and>
   \<bar>5404319552845141 / 9007199254740992 - 6 / 10\<bar> < (1 / 10 ^ 12 :: rat) \<and>
   compute v
     \<lparr>col_time = [0, 3600, 7200, 10800],
      col_pressure = map json_float [Some 1000, Some (10002 / 10), Some (9998 / 10), Some 1001],
      col_diff = None, col_dpdt = None\<rparr> =
     Inr \<lparr>result_index = json_float (Some (9 / 10)), result_tier = MODERATE\<rparr>"
  by (simp add: eval cbi_fst cbi_snd compute_def classify_tier_eq)

text \<open>
  C10. The two versions of \<^verbatim>\<open>compute_bitwalk_index\<close> agree on every frame: they
  return the same index and leave the same frame, with the same two derived columns.
\<close>

theorem versions_agree:
  "compute_bitwalk_index V03 df = compute_bitwalk_index V04 df"
  by simp

end
